theory Spec2Isabelle
  imports Main "HOL-Library.Word" "HOL-Library.Sublist"
begin

unbundle bit_operations_syntax

section \<open>The transform cache of playwright-test (src/transform.ts)\<close>

text \<open>
  A shallow embedding of \<^verbatim>\<open>packages/playwright-test/src/transform.ts\<close>.
  JavaScript strings are modelled as \<^typ>\<open>string\<close>, read as the bytes the string has
  in UTF-8 (for ASCII text, one \<^typ>\<open>char\<close> per UTF-16 code unit, so lengths and
  indices agree with the source's). \<^verbatim>\<open>undefined\<close> is \<^const>\<open>None\<close>. The host is
  a POSIX one: \<^verbatim>\<open>path.sep\<close> is the slash and \<^verbatim>\<open>path\<close> is \<^verbatim>\<open>path.posix\<close>.
\<close>

subsection \<open>JavaScript values\<close>

text \<open>Truthiness of a value that is a string or \<^verbatim>\<open>undefined\<close>.\<close>

definition truthy :: "string option \<Rightarrow> bool" where
  "truthy v = (case v of None \<Rightarrow> False | Some s \<Rightarrow> s \<noteq> [])"

text \<open>\<^verbatim>\<open>a || b\<close> on strings.\<close>

definition orElse :: "string option \<Rightarrow> string \<Rightarrow> string" where
  "orElse v d = (case v of None \<Rightarrow> d | Some s \<Rightarrow> if s = [] then d else s)"

text \<open>\<^verbatim>\<open>s.endsWith(t)\<close> and \<^verbatim>\<open>s.startsWith(t)\<close>.\<close>

definition endsWith :: "string \<Rightarrow> string \<Rightarrow> bool" where
  "endsWith s t = suffix t s"

definition startsWith :: "string \<Rightarrow> string \<Rightarrow> bool" where
  "startsWith s t = prefix t s"

text \<open>\<^verbatim>\<open>s.replace(c, t)\<close> with a one-character string pattern: the first occurrence only.\<close>

fun replaceFirst :: "char \<Rightarrow> string \<Rightarrow> string \<Rightarrow> string" where
  "replaceFirst c t [] = []"
| "replaceFirst c t (x # xs) = (if x = c then t @ xs else x # replaceFirst c t xs)"

text \<open>\<^verbatim>\<open>s.replace(/c/g, t)\<close> for a one-character pattern: every occurrence.\<close>

definition replaceAll :: "char \<Rightarrow> string \<Rightarrow> string \<Rightarrow> string" where
  "replaceAll c t s = concat (map (\<lambda>x. if x = c then t else [x]) s)"

text \<open>The class \<^verbatim>\<open>\w\<close> of a regular expression without the unicode flag: \<^verbatim>\<open>[A-Za-z0-9_]\<close>.\<close>

definition isWordChar :: "char \<Rightarrow> bool" where
  "isWordChar c =
     (let n = (of_char c :: nat)
      in (48 \<le> n \<and> n \<le> 57) \<or> (65 \<le> n \<and> n \<le> 90) \<or> n = 95 \<or> (97 \<le> n \<and> n \<le> 122))"

text \<open>\<^verbatim>\<open>s.replace(/\W/g, '')\<close>.\<close>

definition stripNonWord :: "string \<Rightarrow> string" where
  "stripNonWord s = filter isWordChar s"

text \<open>\<^verbatim>\<open>String(n)\<close> for a non-negative integer.\<close>

definition digitChar :: "nat \<Rightarrow> char" where
  "digitChar d = ''0123456789'' ! (d mod 10)"

fun stringOfNat :: "nat \<Rightarrow> string" where
  "stringOfNat n = (if n < 10 then [digitChar n] else stringOfNat (n div 10) @ [digitChar (n mod 10)])"

declare stringOfNat.simps [simp del]

subsection \<open>SHA-1 (\<^verbatim>\<open>crypto.createHash('sha1')\<close>, FIPS 180-4)\<close>

type_synonym word32 = "32 word"

definition rotl32 :: "nat \<Rightarrow> word32 \<Rightarrow> word32" where
  "rotl32 n x = (push_bit n x) OR (drop_bit (32 - n) x)"

definition be64 :: "nat \<Rightarrow> word32 list" where
  "be64 n =
     (let bits = (of_nat n :: 64 word) * 8
      in map (\<lambda>i. ucast (drop_bit (8 * i) bits AND 255)) [7, 6, 5, 4, 3, 2, 1, 0])"

definition sha1_pad :: "word32 list \<Rightarrow> word32 list" where
  "sha1_pad bs =
     bs @ [128] @ replicate ((119 - length bs mod 64) mod 64) 0 @ be64 (length bs)"

fun toWords :: "word32 list \<Rightarrow> word32 list" where
  "toWords (a # b # c # d # rest) =
     (push_bit 24 a OR push_bit 16 b OR push_bit 8 c OR d) # toWords rest"
| "toWords _ = []"

primrec extendSchedule :: "nat \<Rightarrow> word32 list \<Rightarrow> word32 list" where
  "extendSchedule 0 ws = ws"
| "extendSchedule (Suc n) ws =
     extendSchedule n
       (ws @ [rotl32 1 (ws ! (length ws - 3) XOR ws ! (length ws - 8)
                         XOR ws ! (length ws - 14) XOR ws ! (length ws - 16))])"

definition sha1_f :: "nat \<Rightarrow> word32 \<Rightarrow> word32 \<Rightarrow> word32 \<Rightarrow> word32" where
  "sha1_f t b c d =
     (if t < 20 then (b AND c) OR (NOT b AND d)
      else if t < 40 then b XOR c XOR d
      else if t < 60 then (b AND c) OR (b AND d) OR (c AND d)
      else b XOR c XOR d)"

definition sha1_k :: "nat \<Rightarrow> word32" where
  "sha1_k t =
     (if t < 20 then 0x5A827999 else if t < 40 then 0x6ED9EBA1
      else if t < 60 then 0x8F1BBCDC else 0xCA62C1D6)"

type_synonym sha1_state = "word32 \<times> word32 \<times> word32 \<times> word32 \<times> word32"

fun sha1_round :: "nat \<times> word32 \<Rightarrow> sha1_state \<Rightarrow> sha1_state" where
  "sha1_round (t, w) (a, b, c, d, e) =
     (rotl32 5 a + sha1_f t b c d + e + sha1_k t + w, a, rotl32 30 b, c, d)"

fun sha1_compress :: "sha1_state \<Rightarrow> word32 list \<Rightarrow> sha1_state" where
  "sha1_compress (h0, h1, h2, h3, h4) block =
     (case fold sha1_round (zip [0..<80] (extendSchedule 64 block)) (h0, h1, h2, h3, h4) of
        (a, b, c, d, e) \<Rightarrow> (h0 + a, h1 + b, h2 + c, h3 + d, h4 + e))"

fun sha1_blocks :: "sha1_state \<Rightarrow> word32 list \<Rightarrow> sha1_state" where
  "sha1_blocks h [] = h"
| "sha1_blocks h (w # ws) = sha1_blocks (sha1_compress h (take 16 (w # ws))) (drop 16 (w # ws))"

definition hexDigit :: "nat \<Rightarrow> char" where
  "hexDigit n = ''0123456789abcdef'' ! (n mod 16)"

definition hex32 :: "word32 \<Rightarrow> string" where
  "hex32 w = map (\<lambda>i. hexDigit (unat (drop_bit (4 * i) w AND 15))) [7, 6, 5, 4, 3, 2, 1, 0]"

definition sha1_hex :: "string \<Rightarrow> string" where
  "sha1_hex s =
     (case sha1_blocks (0x67452301, 0xEFCDAB89, 0x98BADCFE, 0x10325476, 0xC3D2E1F0)
             (toWords (sha1_pad (map of_char s))) of
        (a, b, c, d, e) \<Rightarrow> hex32 a @ hex32 b @ hex32 c @ hex32 d @ hex32 e)"

subsection \<open>Node's \<^verbatim>\<open>path\<close> module on a POSIX host\<close>

text \<open>
  The functions of \<^verbatim>\<open>path.posix\<close> that the module calls, after Node's
  \<^verbatim>\<open>lib/path.js\<close>. \<^verbatim>\<open>s.split('/')\<close>: the pieces between the slashes, the empty
  ones included.
\<close>

definition path_sep :: string where
  "path_sep = ''/''"

fun splitSep :: "string \<Rightarrow> string list" where
  "splitSep [] = [[]]"
| "splitSep (c # cs) =
     (if c = CHR ''/'' then [] # splitSep cs
      else (case splitSep cs of [] \<Rightarrow> [[c]] | s # ss \<Rightarrow> (c # s) # ss))"

fun joinSep :: "string list \<Rightarrow> string" where
  "joinSep [] = []"
| "joinSep [s] = s"
| "joinSep (s # ss) = s @ ''/'' @ joinSep ss"

text \<open>
  \<^verbatim>\<open>normalizeString\<close>: empty and \<^verbatim>\<open>.\<close> segments are dropped, \<^verbatim>\<open>..\<close> removes the
  segment before it, or is kept where there is none and the path is relative. The
  accumulator holds the segments kept so far, the last one first.
\<close>

fun normalizeSegments :: "bool \<Rightarrow> string list \<Rightarrow> string list \<Rightarrow> string list" where
  "normalizeSegments allowAboveRoot acc [] = rev acc"
| "normalizeSegments allowAboveRoot acc (s # ss) =
     (if s = [] \<or> s = ''.'' then normalizeSegments allowAboveRoot acc ss
      else if s = ''..'' then
        (case acc of
           a # as \<Rightarrow>
             if a \<noteq> ''..'' then normalizeSegments allowAboveRoot as ss
             else if allowAboveRoot then normalizeSegments allowAboveRoot (s # acc) ss
             else normalizeSegments allowAboveRoot acc ss
         | [] \<Rightarrow>
             if allowAboveRoot then normalizeSegments allowAboveRoot (s # acc) ss
             else normalizeSegments allowAboveRoot acc ss)
      else normalizeSegments allowAboveRoot (s # acc) ss)"

definition isAbsolute :: "string \<Rightarrow> bool" where
  "isAbsolute p = (case p of [] \<Rightarrow> False | c # _ \<Rightarrow> c = CHR ''/'')"

definition path_normalize :: "string \<Rightarrow> string" where
  "path_normalize p =
     (if p = [] then ''.''
      else
        let trailingSeparator = (last p = CHR ''/'');
            s = joinSep (normalizeSegments (\<not> isAbsolute p) [] (splitSep p))
        in if s = [] then (if isAbsolute p then ''/'' else if trailingSeparator then ''./'' else ''.'')
           else (if isAbsolute p then ''/'' else []) @ s @ (if trailingSeparator then ''/'' else []))"

definition path_join :: "string list \<Rightarrow> string" where
  "path_join args =
     (let parts = filter (\<lambda>a. a \<noteq> []) args
      in if parts = [] then ''.'' else path_normalize (joinSep parts))"

text \<open>
  \<^verbatim>\<open>path.resolve\<close>: the arguments are taken from the right until an absolute one,
  the working directory of the process standing to the left of all of them.
\<close>

fun resolveCollect :: "string list \<Rightarrow> string \<Rightarrow> string" where
  "resolveCollect [] resolvedPath = resolvedPath"
| "resolveCollect (p # ps) resolvedPath =
     (if p = [] then resolveCollect ps resolvedPath
      else if isAbsolute p then p @ ''/'' @ resolvedPath
      else resolveCollect ps (p @ ''/'' @ resolvedPath))"

definition path_resolve :: "string \<Rightarrow> string list \<Rightarrow> string" where
  "path_resolve cwd args =
     (let resolvedPath = resolveCollect (rev args @ [cwd]) [];
          s = joinSep (normalizeSegments (\<not> isAbsolute resolvedPath) [] (splitSep resolvedPath))
      in if isAbsolute resolvedPath then ''/'' @ s else if s \<noteq> [] then s else ''.'')"

definition path_dirname :: "string \<Rightarrow> string" where
  "path_dirname p =
     (if p = [] then ''.''
      else
        let r = dropWhile (\<lambda>c. c \<noteq> CHR ''/'') (dropWhile (\<lambda>c. c = CHR ''/'') (rev (drop 1 p)))
        in if r = [] then (if isAbsolute p then ''/'' else ''.'')
           else if isAbsolute p \<and> length r = 1 then ''//''
           else take (length r) p)"

text \<open>The last segment of a path, trailing slashes ignored.\<close>

definition lastSegment :: "string \<Rightarrow> string" where
  "lastSegment p = rev (takeWhile (\<lambda>c. c \<noteq> CHR ''/'') (dropWhile (\<lambda>c. c = CHR ''/'') (rev p)))"

definition path_extname :: "string \<Rightarrow> string" where
  "path_extname p =
     (let b = lastSegment p;
          ext = takeWhile (\<lambda>c. c \<noteq> CHR ''.'') (rev b);
          front = dropWhile (\<lambda>c. c \<noteq> CHR ''.'') (rev b)
      in if front = [] \<or> tl front = [] \<or> b = ''..'' then [] else CHR ''.'' # rev ext)"

text \<open>
  \<^verbatim>\<open>path.basename(p, ext)\<close>, for an \<^verbatim>\<open>ext\<close> that is empty or a suffix of the last
  segment, which is all that \<^verbatim>\<open>path.extname(p)\<close> returns.
\<close>

definition path_basename :: "string \<Rightarrow> string \<Rightarrow> string" where
  "path_basename p ext =
     (let b = lastSegment p
      in if ext \<noteq> [] \<and> length ext \<le> length p then
           (if ext = p then []
            else if suffix ext b \<and> b \<noteq> ext then take (length b - length ext) b
            else b)
         else b)"

subsection \<open>Errors\<close>

text \<open>An exception that leaves a function: a \<^verbatim>\<open>TypeError\<close> of the runtime, or one thrown
  by a collaborator.\<close>

datatype error = TypeError | Thrown string

subsection \<open>The cache key and the artifact path\<close>

text \<open>\<^verbatim>\<open>ParsedTsConfigData\<close>; a value of \<^verbatim>\<open>singlePath\<close> is \<^verbatim>\<open>values[0]\<close>, which is
  \<^verbatim>\<open>undefined\<close> for an empty array. The properties are listed in the order of
  \<^verbatim>\<open>Object.entries\<close>.\<close>

record ParsedTsConfigData =
  absoluteBaseUrl :: string
  singlePath :: "(string \<times> string option) list"
  hash :: string
  aliases :: "(string \<times> (string list \<Rightarrow> error + string)) list"

definition version :: nat where
  "version = 6"

text \<open>The string that the five \<^verbatim>\<open>update\<close> calls feed to the digest, one after the other.\<close>

definition keyInput ::
  "(string \<rightharpoonup> string) \<Rightarrow> nat \<Rightarrow> ParsedTsConfigData option \<Rightarrow> string \<Rightarrow> string \<Rightarrow> string" where
  "keyInput env ver tsconfigData content filePath =
     orElse (map_option hash tsconfigData) []
     @ (if truthy (env ''PW_EXPERIMENTAL_TS_ESM'') then ''esm'' else ''no_esm'')
     @ content
     @ filePath
     @ stringOfNat ver"

definition computeKey ::
  "(string \<rightharpoonup> string) \<Rightarrow> nat \<Rightarrow> ParsedTsConfigData option \<Rightarrow> string \<Rightarrow> string \<Rightarrow> string" where
  "computeKey env ver tsconfigData content filePath =
     sha1_hex (keyInput env ver tsconfigData content filePath)"

definition calculateCachePath ::
  "(string \<rightharpoonup> string) \<Rightarrow> string \<Rightarrow> ParsedTsConfigData option \<Rightarrow> string \<Rightarrow> string \<Rightarrow> string" where
  "calculateCachePath env cacheDir tsconfigData content filePath =
     (let h = computeKey env version tsconfigData content filePath;
          fileName = stripNonWord (path_basename filePath (path_extname filePath)) @ ''_'' @ h
      in path_join [cacheDir, [h ! 0] @ [h ! 1], fileName])"

subsection \<open>Validation of a loaded configuration\<close>

text \<open>\<^verbatim>\<open>TsConfigLoaderResult\<close>; \<^verbatim>\<open>paths\<close> lists its properties in the order of
  \<^verbatim>\<open>Object.keys\<close>, each key once.\<close>

record TsConfigLoaderResult =
  tsConfigPath :: "string option"
  baseUrl :: "string option"
  paths :: "(string \<times> string list) list option"

text \<open>\<^verbatim>\<open>JSON.stringify\<close> of a string.\<close>

definition jsonEscapeChar :: "char \<Rightarrow> string" where
  "jsonEscapeChar c =
     (let n = (of_char c :: nat)
      in if n = 34 then [CHR 0x5C, CHR 0x22]
         else if n = 92 then [CHR 0x5C, CHR 0x5C]
         else if n = 8 then [CHR 0x5C, CHR ''b'']
         else if n = 9 then [CHR 0x5C, CHR ''t'']
         else if n = 10 then [CHR 0x5C, CHR ''n'']
         else if n = 12 then [CHR 0x5C, CHR ''f'']
         else if n = 13 then [CHR 0x5C, CHR ''r'']
         else if n < 32 then [CHR 0x5C] @ ''u00'' @ [hexDigit (n div 16), hexDigit (n mod 16)]
         else [c])"

definition jsonQuote :: "string \<Rightarrow> string" where
  "jsonQuote s = [CHR 0x22] @ concat (map jsonEscapeChar s) @ [CHR 0x22]"

fun joinComma :: "string list \<Rightarrow> string" where
  "joinComma [] = []"
| "joinComma [s] = s"
| "joinComma (s # ss) = s @ '','' @ joinComma ss"

text \<open>\<^verbatim>\<open>JSON.stringify({ absoluteBaseUrl, singlePath })\<close>; a property whose value is
  \<^verbatim>\<open>undefined\<close> is left out.\<close>

definition jsonStringifyConfig :: "string \<Rightarrow> (string \<times> string option) list \<Rightarrow> string" where
  "jsonStringifyConfig base single =
     ''{'' @ jsonQuote ''absoluteBaseUrl'' @ '':'' @ jsonQuote base @ '',''
     @ jsonQuote ''singlePath'' @ '':{''
     @ joinComma (concat (map (\<lambda>(key, v). case v of None \<Rightarrow> []
                                              | Some value \<Rightarrow> [jsonQuote key @ '':'' @ jsonQuote value]) single))
     @ ''}}''"

text \<open>\<^verbatim>\<open>key.match(/^[*./\\]+$/)\<close>.\<close>

definition isAmbiguousKey :: "string \<Rightarrow> bool" where
  "isAmbiguousKey key =
     (key \<noteq> [] \<and> list_all (\<lambda>c. c = CHR ''*'' \<or> c = CHR ''.'' \<or> c = CHR ''/'' \<or> c = CHR 0x5C) key)"

text \<open>\<^verbatim>\<open>paths[key].length > 1\<close>.\<close>

definition hasMultipleTargets :: "(string \<times> string list) list \<Rightarrow> string \<Rightarrow> bool" where
  "hasMultipleTargets ps key = (case map_of ps key of None \<Rightarrow> False | Some values \<Rightarrow> length values > 1)"

text \<open>\<^verbatim>\<open>values[0]\<close>.\<close>

definition firstValue :: "string list \<Rightarrow> string option" where
  "firstValue values = (case values of [] \<Rightarrow> None | v # _ \<Rightarrow> Some v)"

text \<open>
  The function stored under \<^verbatim>\<open>alias[regexKey]\<close>. Its argument is the match array of
  the regular expression on the import specifier, \<^verbatim>\<open>name\<close> its first element, the
  text matched. \<^verbatim>\<open>substring\<close> and \<^verbatim>\<open>replace\<close> on \<^verbatim>\<open>undefined\<close> raise.
\<close>

definition aliasFunction ::
  "string \<Rightarrow> string \<Rightarrow> string \<Rightarrow> string option \<Rightarrow> string list \<Rightarrow> error + string" where
  "aliasFunction pcwd base key value args =
     (let name = firstValue args;
          relative =
            (if endsWith key ''/*'' then
               (case (value, name) of
                  (Some v, Some n) \<Rightarrow> Inr (take (length v - 1) v @ drop (length key - 1) n)
                | _ \<Rightarrow> Inl TypeError)
             else (case value of Some v \<Rightarrow> Inr v | None \<Rightarrow> Inl TypeError))
      in case relative of
           Inl e \<Rightarrow> Inl e
         | Inr r \<Rightarrow> Inr (path_resolve pcwd [base, replaceAll (CHR ''/'') path_sep r]))"

definition validateTsConfig :: "string \<Rightarrow> TsConfigLoaderResult \<Rightarrow> ParsedTsConfigData option" where
  "validateTsConfig pcwd tsconfig =
     (case paths tsconfig of
        None \<Rightarrow> None
      | Some ps \<Rightarrow>
          if \<not> truthy (tsConfigPath tsconfig) \<or> \<not> truthy (baseUrl tsconfig) then None
          else
            let ambiguousPath = find isAmbiguousKey (map fst ps) in
            if truthy ambiguousPath then None
            else
              let multiplePath = find (hasMultipleTargets ps) (map fst ps) in
              if truthy multiplePath then None
              else
                let single = map (\<lambda>(key, values). (key, firstValue values)) ps;
                    base = path_resolve pcwd
                             [path_dirname (orElse (tsConfigPath tsconfig) []),
                              orElse (baseUrl tsconfig) []]
                in Some \<lparr> absoluteBaseUrl = base,
                          singlePath = single,
                          hash = jsonStringifyConfig base single,
                          aliases = map (\<lambda>(key, value).
                                      (''^'' @ replaceFirst (CHR ''*'') ''.*'' key,
                                       aliasFunction pcwd base key value)) single \<rparr>)"

subsection \<open>The process: environment, files, the two module-level maps\<close>

text \<open>
  The collaborators the module calls, in the order it calls them: the discovery of a
  configuration, the digest, the file system and the transformation engine.
\<close>

datatype call =
    Discover string
  | Digest string
  | FsExists string
  | FsRead string
  | FsMkdir string
  | FsWrite string
  | Transform string

datatype plugin =
    Plugin string
  | ModuleResolver "(string \<times> (string list \<Rightarrow> error + string)) list"

text \<open>What the engine returns: \<^verbatim>\<open>code\<close>, and the text of \<^verbatim>\<open>JSON.stringify(map)\<close>.\<close>

record babel_result =
  result_code :: "string option"
  result_map :: "string option"

text \<open>
  The host: the working directory, \<^verbatim>\<open>os.tmpdir()\<close>, the discovery routine
  \<^verbatim>\<open>tsConfigLoader\<close> (it sees the environment and the files, and is given \<^verbatim>\<open>cwd\<close>) and
  \<^verbatim>\<open>babel.transformFileSync\<close> (it reads the file itself, and returns a result or
  throws). The discovery routine is taken to return a result.
\<close>

record host =
  process_cwd :: string
  os_tmpdir :: string
  tsConfigLoader :: "(string \<rightharpoonup> string) \<Rightarrow> (string \<rightharpoonup> string) \<Rightarrow> string \<Rightarrow> TsConfigLoaderResult"
  transformFileSync ::
    "(string \<rightharpoonup> string) \<Rightarrow> (string \<rightharpoonup> string) \<Rightarrow> string \<Rightarrow> plugin list \<Rightarrow> error + babel_result"

record world =
  env :: "string \<rightharpoonup> string"
  files :: "string \<rightharpoonup> string"
  cacheDir :: string
  sourceMaps :: "string \<rightharpoonup> string"
  cachedTSConfigs :: "string \<rightharpoonup> ParsedTsConfigData option"
  calls :: "call list"

definition logCall :: "call \<Rightarrow> world \<Rightarrow> world" where
  "logCall c w = w\<lparr>calls := calls w @ [c]\<rparr>"


text \<open>\<^verbatim>\<open>retrieveSourceMap\<close>, as installed into source-map-support: the text of the map
  file and the url.\<close>

definition retrieveSourceMap :: "world \<Rightarrow> string \<Rightarrow> (string \<times> string) option" where
  "retrieveSourceMap w source =
     (case sourceMaps w source of
        None \<Rightarrow> None
      | Some sourceMapPath \<Rightarrow>
          (case files w sourceMapPath of None \<Rightarrow> None | Some text \<Rightarrow> Some (text, source)))"

definition loadAndValidateTsconfigForFile ::
  "host \<Rightarrow> world \<Rightarrow> string \<Rightarrow> ParsedTsConfigData option \<times> world" where
  "loadAndValidateTsconfigForFile h w f =
     (let cwd = path_dirname f in
      case cachedTSConfigs w cwd of
        None \<Rightarrow>
          let loaded = tsConfigLoader h (env w) (files w) cwd;
              validated = validateTsConfig (process_cwd h) loaded
          in (validated, logCall (Discover cwd) (w\<lparr>cachedTSConfigs := (cachedTSConfigs w)(cwd \<mapsto> validated)\<rparr>))
      | Some memo \<Rightarrow> (memo, w))"

subsection \<open>\<^verbatim>\<open>transformHook\<close>\<close>

definition isComponentImport :: "(string \<rightharpoonup> string) \<Rightarrow> string \<Rightarrow> bool" where
  "isComponentImport e filename =
     (if \<not> truthy (e ''PW_COMPONENT_TESTING'') then False
      else if endsWith filename ''.tsx'' \<and> \<not> endsWith filename ''spec.tsx''
              \<and> \<not> endsWith filename ''test.tsx'' then True
      else if endsWith filename ''.jsx'' \<and> \<not> endsWith filename ''spec.jsx''
              \<and> \<not> endsWith filename ''test.jsx'' then True
      else False)"

definition componentStub :: string where
  "componentStub =
     ''module.exports = new Proxy({}, {'' @ [CHR 0x0A]
     @ ''    get: (obj, prop) => prop'' @ [CHR 0x0A]
     @ ''  });''"

text \<open>
  Lines 131--132: the override is read first; only when it is off is the code file
  looked for, and read when it is there.
\<close>

definition cacheProbe :: "world \<Rightarrow> string \<Rightarrow> string option \<times> world" where
  "cacheProbe w codePath =
     (if truthy (env w ''PW_IGNORE_COMPILE_CACHE'') then (None, w)
      else
        (case files w codePath of
           None \<Rightarrow> (None, logCall (FsExists codePath) w)
         | Some stored \<Rightarrow> (Some stored, logCall (FsRead codePath) (logCall (FsExists codePath) w))))"

definition basePlugins :: "plugin list" where
  "basePlugins =
     [Plugin ''@babel/plugin-proposal-class-properties'',
      Plugin ''@babel/plugin-proposal-numeric-separator'',
      Plugin ''@babel/plugin-proposal-logical-assignment-operators'',
      Plugin ''@babel/plugin-proposal-nullish-coalescing-operator'',
      Plugin ''@babel/plugin-proposal-optional-chaining'',
      Plugin ''@babel/plugin-syntax-json-strings'',
      Plugin ''@babel/plugin-syntax-optional-catch-binding'',
      Plugin ''@babel/plugin-syntax-async-generators'',
      Plugin ''@babel/plugin-syntax-object-rest-spread'',
      Plugin ''@babel/plugin-proposal-export-namespace-from'']"

definition buildPlugins ::
  "(string \<rightharpoonup> string) \<Rightarrow> ParsedTsConfigData option \<Rightarrow> bool \<Rightarrow> plugin list" where
  "buildPlugins e tsconfigData isModule =
     (if truthy (e ''PW_COMPONENT_TESTING'') then [Plugin ''@babel/plugin-transform-react-jsx''] else [])
     @ basePlugins
     @ (case tsconfigData of None \<Rightarrow> [] | Some d \<Rightarrow> [ModuleResolver (aliases d)])
     @ (if \<not> isModule then [Plugin ''@babel/plugin-transform-modules-commonjs'',
                              Plugin ''@babel/plugin-proposal-dynamic-import'']
        else [])"

text \<open>Lines 133--189: the transformation on a miss, and the two writes.\<close>

definition transformMiss ::
  "host \<Rightarrow> world \<Rightarrow> ParsedTsConfigData option \<Rightarrow> string \<Rightarrow> string \<Rightarrow> bool \<Rightarrow> (error + string) \<times> world" where
  "transformMiss h w tsconfigData cachePath filename isModule =
     (let w1 = w\<lparr>env := (env w)(''BROWSERSLIST_IGNORE_OLD_DATA'' \<mapsto> ''true'')\<rparr>;
          plugins = buildPlugins (env w1) tsconfigData isModule;
          w2 = logCall (Transform filename) w1
      in case transformFileSync h (env w2) (files w2) filename plugins of
           Inl e \<Rightarrow> (Inl e, w2)
         | Inr result \<Rightarrow>
             if truthy (result_code result) then
               let w3 = logCall (FsMkdir (path_dirname cachePath)) w2;
                   w4 = (case result_map result of
                           None \<Rightarrow> w3
                         | Some m \<Rightarrow>
                             logCall (FsWrite (cachePath @ ''.map''))
                               (w3\<lparr>files := (files w3)(cachePath @ ''.map'' \<mapsto> m)\<rparr>));
                   w5 = logCall (FsWrite (cachePath @ ''.js''))
                          (w4\<lparr>files := (files w4)(cachePath @ ''.js'' \<mapsto> orElse (result_code result) [])\<rparr>)
               in (Inr (orElse (result_code result) []), w5)
             else (Inr (orElse (result_code result) []), w2))"

text \<open>Lines 131--190: the probe, and the transformation when it misses.\<close>

definition probeOrTransform ::
  "host \<Rightarrow> world \<Rightarrow> ParsedTsConfigData option \<Rightarrow> string \<Rightarrow> string \<Rightarrow> bool \<Rightarrow> (error + string) \<times> world" where
  "probeOrTransform h w tsconfigData cachePath filename isModule =
     (case cacheProbe w (cachePath @ ''.js'') of
        (Some stored, w1) \<Rightarrow> (Inr stored, w1)
      | (None, w1) \<Rightarrow> transformMiss h w1 tsconfigData cachePath filename isModule)"

text \<open>Lines 126--130, and then the probe: the path taken by a file that is not
  answered with the stub.\<close>

definition transformAndCache ::
  "host \<Rightarrow> world \<Rightarrow> string \<Rightarrow> string \<Rightarrow> bool \<Rightarrow> (error + string) \<times> world" where
  "transformAndCache h w content filename isModule =
     (case loadAndValidateTsconfigForFile h w filename of
        (tsconfigData, w1) \<Rightarrow>
          let cachePath = calculateCachePath (env w1) (cacheDir w1) tsconfigData content filename;
              w2 = logCall (Digest (keyInput (env w1) version tsconfigData content filename)) w1;
              sourceMapPath = cachePath @ ''.map'';
              w3 = w2\<lparr>sourceMaps := (sourceMaps w2)(filename \<mapsto> sourceMapPath)\<rparr>
          in probeOrTransform h w3 tsconfigData cachePath filename isModule)"

definition transformHook ::
  "host \<Rightarrow> world \<Rightarrow> string \<Rightarrow> string \<Rightarrow> bool \<Rightarrow> (error + string) \<times> world" where
  "transformHook h w content filename isModule =
     (if isComponentImport (env w) filename then (Inr componentStub, w)
      else transformAndCache h w content filename isModule)"


subsection \<open>\<^verbatim>\<open>wrapFunctionWithLocation\<close>\<close>

text \<open>
  The two globals of \<^verbatim>\<open>Error\<close>. \<^verbatim>\<open>Error.prepareStackTrace\<close> is \<^verbatim>\<open>undefined\<close>, a
  function of somebody else, or the function the wrapper installs.
\<close>

datatype 'f formatter = NoFormatter | Foreign 'f | LocationFormatter

record 'f error_globals =
  prepareStackTrace :: "'f formatter"
  stackTraceLimit :: int

definition kStackTraceLimit :: int where
  "kStackTraceLimit = 15"


text \<open>What the wrapper reads of a \<^verbatim>\<open>NodeJS.CallSite\<close>.\<close>

record CallSite =
  getFileName :: "string option"
  getLineNumber :: nat
  getColumnNumber :: nat

text \<open>\<^verbatim>\<open>Location\<close>, with its fields \<^verbatim>\<open>file\<close>, \<^verbatim>\<open>line\<close> and \<^verbatim>\<open>column\<close>.\<close>

record Location =
  loc_file :: "string option"
  loc_line :: nat
  loc_column :: nat

text \<open>
  Lines 199--209, the function installed as \<^verbatim>\<open>Error.prepareStackTrace\<close>.
  \<^verbatim>\<open>stackFrames[1]\<close> is \<^verbatim>\<open>undefined\<close> when the wrapper has no caller on the stack, and
  reading a call site out of it raises. \<^verbatim>\<open>wrapCallSite\<close> of source-map-support and
  \<^verbatim>\<open>url.fileURLToPath\<close> are parameters.
\<close>

definition locationFormatter ::
  "(CallSite \<Rightarrow> CallSite) \<Rightarrow> (string \<Rightarrow> string) \<Rightarrow> CallSite list \<Rightarrow> error + Location" where
  "locationFormatter wrapCallSite fileURLToPath stackFrames =
     (case drop 1 stackFrames of
        [] \<Rightarrow> Inl TypeError
      | f1 # _ \<Rightarrow>
          let frame = wrapCallSite f1;
              fileName = getFileName frame
          in Inr \<lparr> loc_file = (case fileName of
                             None \<Rightarrow> None
                           | Some n \<Rightarrow> if n \<noteq> [] \<and> startsWith n ''file://''
                                       then Some (fileURLToPath n) else Some n),
                    loc_line = getLineNumber frame,
                    loc_column = getColumnNumber frame \<rparr>)"

text \<open>
  \<^verbatim>\<open>Error.captureStackTrace(obj)\<close> and the read of \<^verbatim>\<open>obj.stack\<close>, while the wrapper's
  function is installed: the runtime hands it the first \<^verbatim>\<open>stackTraceLimit\<close> frames
  of the stack, the wrapper's own frame first.
\<close>

definition captureStackTrace ::
  "(CallSite \<Rightarrow> CallSite) \<Rightarrow> (string \<Rightarrow> string) \<Rightarrow> 'f error_globals \<Rightarrow> CallSite list \<Rightarrow> error + Location" where
  "captureStackTrace wrapCallSite fileURLToPath g stack =
     locationFormatter wrapCallSite fileURLToPath (take (nat (stackTraceLimit g)) stack)"

text \<open>
  The function that \<^verbatim>\<open>wrapFunctionWithLocation(func)\<close> returns, called with \<^verbatim>\<open>args\<close>
  on the call stack \<^verbatim>\<open>stack\<close>. \<^verbatim>\<open>func\<close> may read and write the globals and may throw.
\<close>

definition wrapFunctionWithLocation ::
  "(CallSite \<Rightarrow> CallSite) \<Rightarrow> (string \<Rightarrow> string)
   \<Rightarrow> (Location \<Rightarrow> 'a \<Rightarrow> 'f error_globals \<Rightarrow> (error + 'r) \<times> 'f error_globals)
   \<Rightarrow> CallSite list \<Rightarrow> 'a \<Rightarrow> 'f error_globals \<Rightarrow> (error + 'r) \<times> 'f error_globals" where
  "wrapFunctionWithLocation wrapCallSite fileURLToPath func stack args g =
     (let oldPrepareStackTrace = prepareStackTrace g;
          g1 = g\<lparr>prepareStackTrace := LocationFormatter\<rparr>;
          g2 = g1\<lparr>stackTraceLimit := 2\<rparr>
      in case captureStackTrace wrapCallSite fileURLToPath g2 stack of
           Inl e \<Rightarrow> (Inl e, g2)
         | Inr location \<Rightarrow>
             let g3 = g2\<lparr>stackTraceLimit := kStackTraceLimit\<rparr>;
                 g4 = g3\<lparr>prepareStackTrace := oldPrepareStackTrace\<rparr>
             in func location args g4)"

subsection \<open>Notions used in the statements\<close>

text \<open>The path of the cache entry that \<^const>\<open>transformHook\<close> computes for a file.\<close>

definition hookCachePath :: "host \<Rightarrow> world \<Rightarrow> string \<Rightarrow> string \<Rightarrow> string" where
  "hookCachePath h w content filename =
     calculateCachePath (env w) (cacheDir w)
       (fst (loadAndValidateTsconfigForFile h w filename)) content filename"

text \<open>The calls made between an earlier world and a later one.\<close>

definition newCalls :: "world \<Rightarrow> world \<Rightarrow> call list" where
  "newCalls w w' = drop (length (calls w)) (calls w')"

text \<open>The directories for which the discovery routine was called, in the order of the calls.\<close>

fun discoveries :: "call list \<Rightarrow> string list" where
  "discoveries [] = []"
| "discoveries (Discover d # cs) = d # discoveries cs"
| "discoveries (c # cs) = discoveries cs"


text \<open>A segment that normalisation keeps as it is.\<close>

definition plainSegment :: "string \<Rightarrow> bool" where
  "plainSegment s = (s \<noteq> [] \<and> s \<noteq> ''.'' \<and> s \<noteq> ''..'' \<and> CHR ''/'' \<notin> set s)"

text \<open>
  The resolver as the specification words it: the text the wildcard of the pattern
  matched is put where the wildcard of the target stands; a pattern that does not end
  in a wildcard gives the target as it is.
\<close>

definition specAliasResolve :: "string \<Rightarrow> string \<Rightarrow> string \<Rightarrow> string \<Rightarrow> string \<Rightarrow> string" where
  "specAliasResolve pcwd base key target name =
     (if endsWith key ''*''
      then path_resolve pcwd [base, replaceFirst (CHR ''*'') (drop (length key - 1) name) target]
      else path_resolve pcwd [base, target])"

text \<open>
  The artifact path as the specification words it: the first two characters of the key
  as two directories, one inside the other, and a file name made of the letters and
  digits of the stem.
\<close>

definition isAlphaNumeric :: "char \<Rightarrow> bool" where
  "isAlphaNumeric c =
     (let n = (of_char c :: nat)
      in (48 \<le> n \<and> n \<le> 57) \<or> (65 \<le> n \<and> n \<le> 90) \<or> (97 \<le> n \<and> n \<le> 122))"

definition specArtifactPath :: "string \<Rightarrow> string \<Rightarrow> string \<Rightarrow> string" where
  "specArtifactPath root filePath key =
     path_join [root, [key ! 0], [key ! 1],
                filter isAlphaNumeric (path_basename filePath (path_extname filePath)) @ ''_'' @ key]"

subsection \<open>Example data\<close>

definition wrapperFrame :: CallSite where
  "wrapperFrame = \<lparr> getFileName = Some ''/pw/lib/transform.js'', getLineNumber = 212, getColumnNumber = 11 \<rparr>"

definition callerFrame :: CallSite where
  "callerFrame = \<lparr> getFileName = Some ''file:///t/a.spec.js'', getLineNumber = 10, getColumnNumber = 4 \<rparr>"

text \<open>A \<^verbatim>\<open>fileURLToPath\<close> for urls without a host and without escapes.\<close>

definition plainFileURLToPath :: "string \<Rightarrow> string" where
  "plainFileURLToPath u = drop 7 u"

text \<open>A host with no configuration anywhere and an engine that echoes the file name.\<close>

definition bareHost :: host where
  "bareHost =
     \<lparr> process_cwd = ''/work'', os_tmpdir = ''/tmp'',
       tsConfigLoader = (\<lambda>e fs cwd. \<lparr> tsConfigPath = None, baseUrl = None, paths = None \<rparr>),
       transformFileSync = (\<lambda>e fs f ps. Inr \<lparr> result_code = Some (''compiled '' @ f), result_map = None \<rparr>) \<rparr>"

definition emptyWorld :: world where
  "emptyWorld =
     \<lparr> env = Map.empty, files = Map.empty, cacheDir = ''/cache'',
       sourceMaps = Map.empty, cachedTSConfigs = Map.empty, calls = [] \<rparr>"

text \<open>A world whose cache holds the code file of \<^verbatim>\<open>/p/a.ts\<close> and no map file.\<close>

definition codeOnlyWorld :: world where
  "codeOnlyWorld =
     emptyWorld\<lparr>files :=
       [calculateCachePath Map.empty ''/cache'' None ''src'' ''/p/a.ts'' @ ''.js'' \<mapsto> ''cached code'']\<rparr>"

text \<open>The empty world with component testing switched on.\<close>

definition componentWorld :: world where
  "componentWorld = emptyWorld\<lparr>env := [''PW_COMPONENT_TESTING'' \<mapsto> ''1'']\<rparr>"

text \<open>A configuration at \<^verbatim>\<open>/proj/tsconfig.json\<close> with one wildcard pattern and one fixed one.\<close>

definition libConfig :: TsConfigLoaderResult where
  "libConfig =
     \<lparr> tsConfigPath = Some ''/proj/tsconfig.json'', baseUrl = Some ''.'',
       paths = Some [(''lib/*'', [''./src/lib/*'']), (''util'', [''./src/util''])] \<rparr>"

section \<open>Properties\<close>

subsection \<open>What each step of the hook leaves alone\<close>

lemma load_frame:
  "env (snd (loadAndValidateTsconfigForFile h w f)) = env w"
  "files (snd (loadAndValidateTsconfigForFile h w f)) = files w"
  "cacheDir (snd (loadAndValidateTsconfigForFile h w f)) = cacheDir w"
  "sourceMaps (snd (loadAndValidateTsconfigForFile h w f)) = sourceMaps w"
  by (simp_all add: loadAndValidateTsconfigForFile_def Let_def logCall_def split: option.splits)

lemma load_calls:
  "calls (snd (loadAndValidateTsconfigForFile h w f))
     = calls w @ (if cachedTSConfigs w (path_dirname f) = None then [Discover (path_dirname f)] else [])"
  by (simp add: loadAndValidateTsconfigForFile_def Let_def logCall_def split: option.splits)

lemma probe_frame:
  "env (snd (cacheProbe w p)) = env w"
  "files (snd (cacheProbe w p)) = files w"
  "cacheDir (snd (cacheProbe w p)) = cacheDir w"
  "sourceMaps (snd (cacheProbe w p)) = sourceMaps w"
  "cachedTSConfigs (snd (cacheProbe w p)) = cachedTSConfigs w"
  by (simp_all add: cacheProbe_def logCall_def split: option.splits)

lemma probe_result:
  "fst (cacheProbe w p) = (if truthy (env w ''PW_IGNORE_COMPILE_CACHE'') then None else files w p)"
  by (simp add: cacheProbe_def split: option.splits)

lemma probe_calls:
  "calls (snd (cacheProbe w p))
     = calls w @ (if truthy (env w ''PW_IGNORE_COMPILE_CACHE'') then []
                  else if files w p = None then [FsExists p] else [FsExists p, FsRead p])"
  by (simp add: cacheProbe_def logCall_def split: option.splits)

lemma miss_frame:
  "cacheDir (snd (transformMiss h w t cp f m)) = cacheDir w"
  "sourceMaps (snd (transformMiss h w t cp f m)) = sourceMaps w"
  "cachedTSConfigs (snd (transformMiss h w t cp f m)) = cachedTSConfigs w"
  by (simp_all add: transformMiss_def Let_def logCall_def split: option.splits sum.splits)

lemma miss_calls:
  "\<exists>rest. calls (snd (transformMiss h w t cp f m)) = calls w @ Transform f # rest
          \<and> discoveries rest = []"
  by (simp add: transformMiss_def Let_def logCall_def split: option.splits sum.splits)

lemma probeOrTransform_frame:
  "cacheDir (snd (probeOrTransform h w t cp f m)) = cacheDir w"
  "sourceMaps (snd (probeOrTransform h w t cp f m)) = sourceMaps w"
  "cachedTSConfigs (snd (probeOrTransform h w t cp f m)) = cachedTSConfigs w"
  using probe_frame [of w "cp @ ''.js''"]
  by (auto simp: probeOrTransform_def miss_frame split: prod.splits option.splits)

lemma probeOrTransform_hit:
  assumes "\<not> truthy (env w ''PW_IGNORE_COMPILE_CACHE'')" and "files w (cp @ ''.js'') = Some stored"
  shows "probeOrTransform h w t cp f m
           = (Inr stored, logCall (FsRead (cp @ ''.js'')) (logCall (FsExists (cp @ ''.js'')) w))"
  using assms by (simp add: probeOrTransform_def cacheProbe_def)

lemma probeOrTransform_miss:
  assumes "truthy (env w ''PW_IGNORE_COMPILE_CACHE'') \<or> files w (cp @ ''.js'') = None"
  shows "probeOrTransform h w t cp f m
           = transformMiss h (if truthy (env w ''PW_IGNORE_COMPILE_CACHE'') then w
                              else logCall (FsExists (cp @ ''.js'')) w) t cp f m"
  using assms by (auto simp: probeOrTransform_def cacheProbe_def)

lemma transformAndCache_unfold:
  "transformAndCache h w content filename isModule =
     probeOrTransform h
       ((logCall (Digest (keyInput (env w) version (fst (loadAndValidateTsconfigForFile h w filename)) content filename))
          (snd (loadAndValidateTsconfigForFile h w filename)))
          \<lparr>sourceMaps := (sourceMaps w)(filename \<mapsto> hookCachePath h w content filename @ ''.map'')\<rparr>)
       (fst (loadAndValidateTsconfigForFile h w filename))
       (hookCachePath h w content filename) filename isModule"
  by (simp add: transformAndCache_def hookCachePath_def Let_def load_frame logCall_def case_prod_beta)

subsection \<open>The location wrapper\<close>

lemma wrap_after_capture:
  assumes "captureStackTrace wrapCallSite fileURLToPath
             (g\<lparr>prepareStackTrace := LocationFormatter, stackTraceLimit := 2\<rparr>) stack = Inr location"
  shows "wrapFunctionWithLocation wrapCallSite fileURLToPath func stack args g
         = func location args (g\<lparr>stackTraceLimit := kStackTraceLimit\<rparr>)"
  using assms by (simp add: wrapFunctionWithLocation_def Let_def)

lemma capture_example:
  "captureStackTrace id plainFileURLToPath
     (\<lparr>prepareStackTrace = Foreign (), stackTraceLimit = 30\<rparr>
        \<lparr>prepareStackTrace := LocationFormatter, stackTraceLimit := 2\<rparr>)
     [wrapperFrame, callerFrame]
   = Inr \<lparr> loc_file = Some ''/t/a.spec.js'', loc_line = 10, loc_column = 4 \<rparr>"
  by (simp add: captureStackTrace_def locationFormatter_def callerFrame_def startsWith_def
      plainFileURLToPath_def)

text \<open>
  Claim C2, as amended. On a call whose capture yields a location, the wrapped function
  is invoked on globals in which the formatter is the one found on entry and the
  stack-depth limit is the constant 15 (not the limit found on entry); the wrapper
  does nothing after the invocation, so its result and its final globals are those of
  the wrapped function, whether that returns or throws.
\<close>

theorem wrapper_restores_then_invokes:
  assumes "captureStackTrace wrapCallSite fileURLToPath
             (g\<lparr>prepareStackTrace := LocationFormatter, stackTraceLimit := 2\<rparr>) stack = Inr location"
  shows "wrapFunctionWithLocation wrapCallSite fileURLToPath func stack args g
           = func location args (g\<lparr>stackTraceLimit := kStackTraceLimit\<rparr>)
         \<and> prepareStackTrace (g\<lparr>stackTraceLimit := kStackTraceLimit\<rparr>) = prepareStackTrace g
         \<and> stackTraceLimit (g\<lparr>stackTraceLimit := kStackTraceLimit\<rparr>) = 15"
  using wrap_after_capture [OF assms, of func args] by (simp add: kStackTraceLimit_def)

theorem wrapper_restores_then_invokes_witness:
  "wrapFunctionWithLocation id plainFileURLToPath
     (\<lambda>l a x. (Inl (Thrown ''boom'') :: error + unit, x)) [wrapperFrame, callerFrame] ()
     \<lparr>prepareStackTrace = Foreign (), stackTraceLimit = 30\<rparr>
   = (Inl (Thrown ''boom''), \<lparr>prepareStackTrace = Foreign (), stackTraceLimit = 15\<rparr>)"
  using wrapper_restores_then_invokes [OF capture_example,
      of "\<lambda>l a x. (Inl (Thrown ''boom'') :: error + unit, x)" "()"]
  by (simp add: kStackTraceLimit_def)

text \<open>
  Claim C2 as stated fails: with a limit of 30 on entry, the limit is 15 and not 30 when
  control leaves the wrapper, here by an exception of the wrapped function.
\<close>

theorem wrapper_does_not_restore_previous_limit:
  "stackTraceLimit (snd (wrapFunctionWithLocation id plainFileURLToPath
       (\<lambda>l a x. (Inl (Thrown ''boom'') :: error + unit, x)) [wrapperFrame, callerFrame] ()
       \<lparr>prepareStackTrace = Foreign (), stackTraceLimit = 30\<rparr>)) = 15
   \<and> stackTraceLimit \<lparr>prepareStackTrace = Foreign (), stackTraceLimit = 30\<rparr> = 30"
  by (simp add: wrapFunctionWithLocation_def captureStackTrace_def locationFormatter_def
      kStackTraceLimit_def)



subsection \<open>The cache key\<close>

lemma keyInput_content_injective:
  "keyInput e v t c1 f = keyInput e v t c2 f \<Longrightarrow> c1 = c2"
  by (simp add: keyInput_def)

lemma keyInput_path_injective:
  "keyInput e v t c f1 = keyInput e v t c f2 \<Longrightarrow> f1 = f2"
  by (simp add: keyInput_def)




subsection \<open>The hook\<close>



lemma hook_calls_hit:
  assumes "\<not> isComponentImport (env w) filename"
    and "\<not> truthy (env w ''PW_IGNORE_COMPILE_CACHE'')"
    and "files w (hookCachePath h w content filename @ ''.js'') = Some stored"
  shows "fst (transformHook h w content filename isModule) = Inr stored"
    and "newCalls w (snd (transformHook h w content filename isModule))
          = (if cachedTSConfigs w (path_dirname filename) = None then [Discover (path_dirname filename)] else [])
            @ [Digest (keyInput (env w) version (fst (loadAndValidateTsconfigForFile h w filename)) content filename),
               FsExists (hookCachePath h w content filename @ ''.js''),
               FsRead (hookCachePath h w content filename @ ''.js'')]"
  using assms
  by (simp_all add: transformHook_def transformAndCache_unfold probeOrTransform_hit logCall_def
      load_frame load_calls newCalls_def)

lemma hook_calls_miss:
  assumes "\<not> isComponentImport (env w) filename"
    and "truthy (env w ''PW_IGNORE_COMPILE_CACHE'') \<or> files w (hookCachePath h w content filename @ ''.js'') = None"
  shows "\<exists>rest. newCalls w (snd (transformHook h w content filename isModule))
          = (if cachedTSConfigs w (path_dirname filename) = None then [Discover (path_dirname filename)] else [])
            @ [Digest (keyInput (env w) version (fst (loadAndValidateTsconfigForFile h w filename)) content filename)]
            @ (if truthy (env w ''PW_IGNORE_COMPILE_CACHE'') then [] else [FsExists (hookCachePath h w content filename @ ''.js'')])
            @ Transform filename # rest"
proof -
  let ?t = "fst (loadAndValidateTsconfigForFile h w filename)"
  let ?w1 = "snd (loadAndValidateTsconfigForFile h w filename)"
  let ?cp = "hookCachePath h w content filename"
  let ?w3 = "(logCall (Digest (keyInput (env w) version ?t content filename)) ?w1)
               \<lparr>sourceMaps := (sourceMaps w)(filename \<mapsto> ?cp @ ''.map'')\<rparr>"
  let ?w4 = "if truthy (env ?w3 ''PW_IGNORE_COMPILE_CACHE'') then ?w3 else logCall (FsExists (?cp @ ''.js'')) ?w3"
  have e: "env ?w3 = env w" "files ?w3 = files w"
    by (simp_all add: logCall_def load_frame)
  have hook: "transformHook h w content filename isModule = transformMiss h ?w4 ?t ?cp filename isModule"
    using assms e probeOrTransform_miss [of ?w3 ?cp h ?t filename isModule]
    by (simp add: transformHook_def transformAndCache_unfold)
  obtain rest where r: "calls (snd (transformMiss h ?w4 ?t ?cp filename isModule)) = calls ?w4 @ Transform filename # rest"
    using miss_calls [of h ?w4 ?t ?cp filename isModule] by blast
  have c4: "calls ?w4 = calls w
      @ (if cachedTSConfigs w (path_dirname filename) = None then [Discover (path_dirname filename)] else [])
      @ [Digest (keyInput (env w) version ?t content filename)]
      @ (if truthy (env w ''PW_IGNORE_COMPILE_CACHE'') then [] else [FsExists (?cp @ ''.js'')])"
    by (simp add: logCall_def load_calls load_frame)
  show ?thesis
    unfolding hook newCalls_def r c4 by simp
qed


text \<open>
  Claim C3, as amended. The probe reports a miss when the override is on or the code
  file is absent, and a hit, with the content of the code file, otherwise: the map
  file is not looked at. On a hit the hook returns the stored code, having asked for
  the code file and read it; on a miss it goes on to the engine.
\<close>

theorem cache_hit_iff_code_file_and_no_override:
  assumes "\<not> isComponentImport (env w) filename"
  shows "fst (cacheProbe w p) = (if truthy (env w ''PW_IGNORE_COMPILE_CACHE'') then None else files w p)
    \<and> (\<not> truthy (env w ''PW_IGNORE_COMPILE_CACHE'')
         \<and> files w (hookCachePath h w content filename @ ''.js'') = Some stored
       \<longrightarrow> fst (transformHook h w content filename isModule) = Inr stored
           \<and> newCalls w (snd (transformHook h w content filename isModule))
               = (if cachedTSConfigs w (path_dirname filename) = None
                  then [Discover (path_dirname filename)] else [])
                 @ [Digest (keyInput (env w) version
                      (fst (loadAndValidateTsconfigForFile h w filename)) content filename),
                    FsExists (hookCachePath h w content filename @ ''.js''),
                    FsRead (hookCachePath h w content filename @ ''.js'')])
    \<and> (truthy (env w ''PW_IGNORE_COMPILE_CACHE'')
         \<or> files w (hookCachePath h w content filename @ ''.js'') = None
       \<longrightarrow> (\<exists>rest. newCalls w (snd (transformHook h w content filename isModule))
               = (if cachedTSConfigs w (path_dirname filename) = None
                  then [Discover (path_dirname filename)] else [])
                 @ [Digest (keyInput (env w) version
                      (fst (loadAndValidateTsconfigForFile h w filename)) content filename)]
                 @ (if truthy (env w ''PW_IGNORE_COMPILE_CACHE'') then []
                    else [FsExists (hookCachePath h w content filename @ ''.js'')])
                 @ Transform filename # rest))"
  using hook_calls_hit [OF assms, of h content stored isModule]
    hook_calls_miss [OF assms, of h content isModule]
  by (simp only: probe_result) blast

lemma codeOnly_path:
  "hookCachePath bareHost codeOnlyWorld ''src'' ''/p/a.ts''
     = calculateCachePath Map.empty ''/cache'' None ''src'' ''/p/a.ts''"
  by (simp add: hookCachePath_def loadAndValidateTsconfigForFile_def validateTsConfig_def
      bareHost_def codeOnlyWorld_def emptyWorld_def Let_def)

lemma codeOnly_facts:
  "\<not> isComponentImport (env codeOnlyWorld) ''/p/a.ts''"
  "\<not> truthy (env codeOnlyWorld ''PW_IGNORE_COMPILE_CACHE'')"
  "files codeOnlyWorld (hookCachePath bareHost codeOnlyWorld ''src'' ''/p/a.ts'' @ ''.js'') = Some ''cached code''"
  "files codeOnlyWorld (hookCachePath bareHost codeOnlyWorld ''src'' ''/p/a.ts'' @ ''.map'') = None"
  by (simp_all add: codeOnly_path)
     (simp_all add: codeOnlyWorld_def emptyWorld_def isComponentImport_def truthy_def)

theorem cache_hit_iff_code_file_and_no_override_witness:
  "\<not> isComponentImport (env codeOnlyWorld) ''/p/a.ts''
   \<and> \<not> truthy (env codeOnlyWorld ''PW_IGNORE_COMPILE_CACHE'')
   \<and> fst (transformHook bareHost codeOnlyWorld ''src'' ''/p/a.ts'' False) = Inr ''cached code''
   \<and> (\<exists>rest. newCalls emptyWorld (snd (transformHook bareHost emptyWorld ''src'' ''/p/a.ts'' False))
        = Discover (path_dirname ''/p/a.ts'')
          # Digest (keyInput Map.empty version None ''src'' ''/p/a.ts'')
          # FsExists (hookCachePath bareHost emptyWorld ''src'' ''/p/a.ts'' @ ''.js'')
          # Transform ''/p/a.ts'' # rest)"
  using cache_hit_iff_code_file_and_no_override
      [OF codeOnly_facts(1), of p bareHost "''src''" "''cached code''" False]
    cache_hit_iff_code_file_and_no_override
      [of emptyWorld "''/p/a.ts''" p bareHost "''src''" stored False]
    codeOnly_facts
  by (simp add: emptyWorld_def isComponentImport_def truthy_def
      loadAndValidateTsconfigForFile_def validateTsConfig_def bareHost_def Let_def)

text \<open>
  Claim C3 as stated fails: with the code file in the cache, the map file absent and
  the override off, the hook returns the stored code and does not call the engine.
\<close>

theorem probe_hits_without_map_file:
  "files codeOnlyWorld (hookCachePath bareHost codeOnlyWorld ''src'' ''/p/a.ts'' @ ''.map'') = None
   \<and> \<not> truthy (env codeOnlyWorld ''PW_IGNORE_COMPILE_CACHE'')
   \<and> fst (transformHook bareHost codeOnlyWorld ''src'' ''/p/a.ts'' False) = Inr ''cached code''
   \<and> Transform ''/p/a.ts'' \<notin> set (calls (snd (transformHook bareHost codeOnlyWorld ''src'' ''/p/a.ts'' False)))"
  using codeOnly_facts hook_calls_hit [OF codeOnly_facts(1,2,3), of False]
  by (simp add: newCalls_def)
     (simp add: codeOnlyWorld_def emptyWorld_def)

lemma spec_not_jsx: "endsWith f ''spec.tsx'' \<or> endsWith f ''test.tsx'' \<Longrightarrow> \<not> endsWith f ''.jsx''"
  by (auto simp: endsWith_def suffix_to_prefix prefix_def)

lemma spec_not_component:
  "endsWith f ''spec.tsx'' \<or> endsWith f ''test.tsx'' \<Longrightarrow> \<not> isComponentImport e f"
  using spec_not_jsx [of f] by (auto simp: isComponentImport_def)

lemma load_memoizes:
  "cachedTSConfigs (snd (loadAndValidateTsconfigForFile h w f)) (path_dirname f)
     = Some (fst (loadAndValidateTsconfigForFile h w f))"
  by (simp add: loadAndValidateTsconfigForFile_def Let_def logCall_def split: option.splits)

lemma hook_digest_logged:
  assumes "\<not> isComponentImport (env w) f"
  shows "Digest (keyInput (env w) version (fst (loadAndValidateTsconfigForFile h w f)) content f)
           \<in> set (newCalls w (snd (transformHook h w content f isModule)))"
proof (cases "truthy (env w ''PW_IGNORE_COMPILE_CACHE'') \<or> files w (hookCachePath h w content f @ ''.js'') = None")
  case True
  then show ?thesis using hook_calls_miss [OF assms, of h content isModule] by auto
next
  case False
  then obtain stored where "files w (hookCachePath h w content f @ ''.js'') = Some stored" by auto
  with False show ?thesis using hook_calls_hit(2) [OF assms, of h content stored isModule] by auto
qed

lemma hook_memo:
  assumes "\<not> isComponentImport (env w) f"
  shows "cachedTSConfigs (snd (transformHook h w content f isModule)) (path_dirname f)
           = Some (fst (loadAndValidateTsconfigForFile h w f))"
  using assms
  by (simp add: transformHook_def transformAndCache_unfold probeOrTransform_frame logCall_def load_memoizes)

text \<open>
  Claim C4. With component testing on, a file name that ends in \<^verbatim>\<open>.tsx\<close> but not in
  \<^verbatim>\<open>spec.tsx\<close> or \<^verbatim>\<open>test.tsx\<close> (and the same for \<^verbatim>\<open>.jsx\<close>) is answered with the stub
  and the world is left as it was: no call to the file system, the discovery routine
  or the digest. A file name that ends in \<^verbatim>\<open>spec.tsx\<close> or \<^verbatim>\<open>test.tsx\<close> takes the path of
  every other file: the configuration is resolved and memoized, the key is computed,
  the registry entry is set and the cache is probed.
\<close>

theorem component_stub_short_circuit:
  assumes "truthy (env w ''PW_COMPONENT_TESTING'')"
  shows "((endsWith f ''.tsx'' \<and> \<not> endsWith f ''spec.tsx'' \<and> \<not> endsWith f ''test.tsx'')
          \<or> (endsWith f ''.jsx'' \<and> \<not> endsWith f ''spec.jsx'' \<and> \<not> endsWith f ''test.jsx'')
         \<longrightarrow> transformHook h w content f isModule = (Inr componentStub, w)
             \<and> newCalls w (snd (transformHook h w content f isModule)) = [])
    \<and> (endsWith f ''spec.tsx'' \<or> endsWith f ''test.tsx''
         \<longrightarrow> transformHook h w content f isModule = transformAndCache h w content f isModule
             \<and> Digest (keyInput (env w) version (fst (loadAndValidateTsconfigForFile h w f)) content f)
                 \<in> set (newCalls w (snd (transformHook h w content f isModule)))
             \<and> cachedTSConfigs (snd (transformHook h w content f isModule)) (path_dirname f)
                 = Some (fst (loadAndValidateTsconfigForFile h w f))
             \<and> sourceMaps (snd (transformHook h w content f isModule)) f
                 = Some (hookCachePath h w content f @ ''.map''))"
proof (intro conjI impI)
  assume c: "(endsWith f ''.tsx'' \<and> \<not> endsWith f ''spec.tsx'' \<and> \<not> endsWith f ''test.tsx'')
          \<or> (endsWith f ''.jsx'' \<and> \<not> endsWith f ''spec.jsx'' \<and> \<not> endsWith f ''test.jsx'')"
  with assms have "isComponentImport (env w) f" by (auto simp: isComponentImport_def)
  then show "transformHook h w content f isModule = (Inr componentStub, w)"
    and "newCalls w (snd (transformHook h w content f isModule)) = []"
    by (simp_all add: transformHook_def newCalls_def)
next
  assume s: "endsWith f ''spec.tsx'' \<or> endsWith f ''test.tsx''"
  then have n: "\<not> isComponentImport (env w) f" by (rule spec_not_component)
  show "transformHook h w content f isModule = transformAndCache h w content f isModule"
    using n by (simp add: transformHook_def)
  show "Digest (keyInput (env w) version (fst (loadAndValidateTsconfigForFile h w f)) content f)
                 \<in> set (newCalls w (snd (transformHook h w content f isModule)))"
    using n by (rule hook_digest_logged)
  show "cachedTSConfigs (snd (transformHook h w content f isModule)) (path_dirname f)
                 = Some (fst (loadAndValidateTsconfigForFile h w f))"
    using n by (rule hook_memo)
  show "sourceMaps (snd (transformHook h w content f isModule)) f
                 = Some (hookCachePath h w content f @ ''.map'')"
    using n by (simp add: transformHook_def transformAndCache_unfold probeOrTransform_frame)
qed


theorem component_stub_short_circuit_witness:
  "truthy (env componentWorld ''PW_COMPONENT_TESTING'')
   \<and> transformHook bareHost componentWorld ''src'' ''/p/component.tsx'' False = (Inr componentStub, componentWorld)
   \<and> sourceMaps (snd (transformHook bareHost componentWorld ''src'' ''/p/component.spec.tsx'' False))
         ''/p/component.spec.tsx''
       = Some (hookCachePath bareHost componentWorld ''src'' ''/p/component.spec.tsx'' @ ''.map'')"
proof -
  have t: "truthy (env componentWorld ''PW_COMPONENT_TESTING'')"
    by (simp add: componentWorld_def emptyWorld_def truthy_def)
  have a: "endsWith ''/p/component.tsx'' ''.tsx'' \<and> \<not> endsWith ''/p/component.tsx'' ''spec.tsx''
           \<and> \<not> endsWith ''/p/component.tsx'' ''test.tsx''"
    by (simp add: endsWith_def suffix_to_prefix)
  have b: "endsWith ''/p/component.spec.tsx'' ''spec.tsx''"
    by (simp add: endsWith_def suffix_to_prefix)
  show ?thesis
    using t a b
      component_stub_short_circuit [OF t, of "''/p/component.tsx''" bareHost "''src''" False]
      component_stub_short_circuit [OF t, of "''/p/component.spec.tsx''" bareHost "''src''" False]
    by blast
qed

subsection \<open>Memoization of the configuration\<close>














subsection \<open>Validation\<close>

lemma find_truthy:
  assumes "find P keys = Some k" and "[] \<notin> set keys"
  shows "truthy (find P keys)"
proof -
  from assms(1) have "k \<in> set keys"
    by (auto simp: find_Some_iff)
  with assms show ?thesis by (auto simp: truthy_def)
qed

lemma ambiguous_key_found:
  assumes "key \<in> set keys" and "isAmbiguousKey key"
  shows "truthy (find isAmbiguousKey keys)"
proof -
  from assms obtain k where k: "find isAmbiguousKey keys = Some k"
    by (cases "find isAmbiguousKey keys") (auto simp: find_None_iff)
  then have "isAmbiguousKey k" by (auto simp: find_Some_iff)
  then have "k \<noteq> []" by (simp add: isAmbiguousKey_def)
  with k show ?thesis by (simp add: truthy_def)
qed

text \<open>A configuration with a key made of wildcard, dot, slash and backslash only is rejected.\<close>

lemma validate_rejects_ambiguous_key:
  assumes "paths t = Some ps" and "key \<in> fst ` set ps" and "isAmbiguousKey key"
  shows "validateTsConfig pcwd t = None"
  using assms ambiguous_key_found [of key "map fst ps"]
  by (simp add: validateTsConfig_def Let_def)

text \<open>A configuration with a key of more than one target is rejected, when no key is the
  empty string.\<close>

lemma validate_rejects_multiple_targets:
  assumes "paths t = Some ps" and "distinct (map fst ps)" and "(key, values) \<in> set ps"
    and "length values > 1" and "[] \<notin> fst ` set ps"
  shows "validateTsConfig pcwd t = None"
proof -
  from assms(2,3,4) have "hasMultipleTargets ps key"
    by (simp add: hasMultipleTargets_def)
  moreover from assms(3) have "key \<in> set (map fst ps)" by force
  ultimately obtain k where "find (hasMultipleTargets ps) (map fst ps) = Some k"
    by (cases "find (hasMultipleTargets ps) (map fst ps)") (auto simp: find_None_iff)
  with assms(5) have "truthy (find (hasMultipleTargets ps) (map fst ps))"
    using find_truthy [of "hasMultipleTargets ps" "map fst ps" k] by simp
  with assms(1) show ?thesis
    by (simp add: validateTsConfig_def Let_def)
qed

text \<open>
  Claim C5 fails on the code. The configuration whose only pattern key is the empty
  string, with the two targets \<^verbatim>\<open>a\<close> and \<^verbatim>\<open>b\<close>, is accepted: \<^verbatim>\<open>find\<close> returns the
  key found, the empty string, and line 80 reads it as "none found". The first target
  is kept and the second dropped.
\<close>

theorem empty_key_with_two_targets_is_accepted:
  "map_option singlePath
     (validateTsConfig ''/work''
        \<lparr> tsConfigPath = Some ''/p/tsconfig.json'', baseUrl = Some ''.'',
          paths = Some [([], [''a'', ''b''])] \<rparr>)
   = Some [([], Some ''a'')]"
  by (simp add: validateTsConfig_def Let_def truthy_def isAmbiguousKey_def hasMultipleTargets_def
      firstValue_def)

theorem empty_key_with_two_targets_is_accepted_witness:
  "validateTsConfig ''/work''
     \<lparr> tsConfigPath = Some ''/p/tsconfig.json'', baseUrl = Some ''.'',
       paths = Some [([], [''a'', ''b''])] \<rparr>
   \<noteq> None"
  using empty_key_with_two_targets_is_accepted by auto

subsection \<open>Paths\<close>

lemma splitSep_nonempty: "splitSep s \<noteq> []"
  by (induction s) (auto split: list.splits)

lemma splitSep_append: "splitSep (a @ CHR ''/'' # b) = splitSep a @ splitSep b"
proof (induction a)
  case Nil
  show ?case by simp
next
  case (Cons c a)
  then show ?case
    using splitSep_nonempty [of a] by (cases "splitSep a") auto
qed

lemma splitSep_plain: "CHR ''/'' \<notin> set s \<Longrightarrow> splitSep s = [s]"
  by (induction s) auto

lemma normalizeSegments_plain:
  "list_all plainSegment ys \<Longrightarrow>
   normalizeSegments ab acc (ys @ rest) = normalizeSegments ab (rev ys @ acc) rest"
  by (induction ys arbitrary: acc) (auto simp: plainSegment_def)

lemma normalizeSegments_plain_end:
  "list_all plainSegment ys \<Longrightarrow>
   normalizeSegments ab acc (xs @ ys) = normalizeSegments ab acc xs @ ys"
proof (induction ab acc xs rule: normalizeSegments.induct)
  case (1 ab acc)
  then show ?case
    using normalizeSegments_plain [of ys ab acc "[]"] by simp
next
  case (2 ab acc s ss)
  then show ?case
    by (auto split: list.splits)
qed

lemma joinSep_append:
  "xs \<noteq> [] \<Longrightarrow> ys \<noteq> [] \<Longrightarrow> joinSep (xs @ ys) = joinSep xs @ ''/'' @ joinSep ys"
  by (induction xs rule: joinSep.induct) (auto split: list.splits, (cases ys; simp)+)

lemma splitSep_joinSep:
  "segs \<noteq> [] \<Longrightarrow> list_all (\<lambda>s. CHR ''/'' \<notin> set s) segs \<Longrightarrow> splitSep (joinSep segs) = segs"
proof (induction segs rule: joinSep.induct)
  case 1
  then show ?case by simp
next
  case (2 s)
  then show ?case by (simp add: splitSep_plain)
next
  case (3 s v va)
  then show ?case
    by (simp add: splitSep_append splitSep_plain)
qed


subsection \<open>The shape of the digest\<close>

lemma hexDigit_hex: "hexDigit n \<in> set ''0123456789abcdef''"
proof -
  have "n mod 16 < length ''0123456789abcdef''" by simp
  then show ?thesis
    unfolding hexDigit_def by (rule nth_mem)
qed

lemma hex32_shape: "length (hex32 w) = 8 \<and> set (hex32 w) \<subseteq> set ''0123456789abcdef''"
  using hexDigit_hex by (simp add: hex32_def)

lemma sha1_hex_shape:
  "length (sha1_hex s) = 40 \<and> set (sha1_hex s) \<subseteq> set ''0123456789abcdef''"
proof -
  obtain a b c d e where
    "sha1_blocks (0x67452301, 0xEFCDAB89, 0x98BADCFE, 0x10325476, 0xC3D2E1F0)
       (toWords (sha1_pad (map of_char s))) = (a, b, c, d, e)"
    by (metis prod_cases5)
  then show ?thesis
    using hex32_shape [of a] hex32_shape [of b] hex32_shape [of c] hex32_shape [of d] hex32_shape [of e]
    by (simp add: sha1_hex_def)
qed

lemma key_chars:
  assumes "h = computeKey e v t c f"
  shows "length h = 40" and "CHR ''/'' \<notin> set h" and "CHR ''.'' \<notin> set h"
  using sha1_hex_shape [of "keyInput e v t c f"] assms
  by (auto simp: computeKey_def)

lemma shard_plain:
  assumes "h = computeKey e v t c f"
  shows "plainSegment [h ! 0, h ! 1]"
proof -
  have "h ! 0 \<in> set h" "h ! 1 \<in> set h"
    using key_chars(1) [OF assms] by simp_all
  then show ?thesis
    using key_chars(2,3) [OF assms] by (auto simp: plainSegment_def)
qed

lemma wordChar_not_slash: "isWordChar x \<Longrightarrow> x \<noteq> CHR ''/''"
  by (auto simp: isWordChar_def Let_def)

lemma fileName_plain:
  assumes "h = computeKey e v t c f"
  shows "plainSegment (stripNonWord stem @ ''_'' @ h)"
proof -
  define x where "x = stripNonWord stem @ ''_'' @ h"
  have slash: "CHR ''/'' \<notin> set x"
    using wordChar_not_slash key_chars(2) [OF assms] by (auto simp: x_def stripNonWord_def)
  have u: "CHR ''_'' \<in> set x" by (simp add: x_def)
  have "x \<noteq> []" "x \<noteq> ''.''" "x \<noteq> ''..''"
    using u by auto
  with slash show ?thesis
    by (simp add: plainSegment_def x_def)
qed


subsection \<open>Joining plain segments to a root\<close>

lemma joinSep_empty: "joinSep ys = [] \<Longrightarrow> ys = [] \<or> ys = [[]]"
  by (induction ys rule: joinSep.induct) auto

lemma last_joinSep: "segs \<noteq> [] \<Longrightarrow> last segs \<noteq> [] \<Longrightarrow> last (joinSep segs) = last (last segs)"
  by (induction segs rule: joinSep.induct) (auto split: if_splits dest: joinSep_empty)

lemma plain_no_slash: "list_all plainSegment segs \<Longrightarrow> list_all (\<lambda>s. CHR ''/'' \<notin> set s) segs"
  by (induction segs) (auto simp: plainSegment_def)

lemma path_join_plain:
  assumes "root \<noteq> []" and "segs \<noteq> []" and "list_all plainSegment segs"
  shows "path_join (root # segs)
         = (if isAbsolute root then ''/'' else [])
           @ joinSep (normalizeSegments (\<not> isAbsolute root) [] (splitSep root) @ segs)"
proof -
  define p where "p = root @ CHR ''/'' # joinSep segs"
  have nonempty: "filter (\<lambda>a. a \<noteq> []) segs = segs"
    using assms(3) by (induction segs) (auto simp: plainSegment_def)
  have "joinSep (root # segs) = p"
    using assms(2) by (cases segs) (simp_all add: p_def)
  then have join: "path_join (root # segs) = path_normalize p"
    using assms(1) nonempty by (simp add: path_join_def)
  have abs: "isAbsolute p = isAbsolute root"
    using assms(1) by (cases root) (simp_all add: isAbsolute_def p_def)
  have lastseg: "plainSegment (last segs)"
    using assms(2,3) by (metis last_in_set list_all_iff)
  then have "last (last segs) \<noteq> CHR ''/''"
    by (metis last_in_set plainSegment_def)
  moreover have js: "joinSep segs \<noteq> []"
    using assms(2) lastseg joinSep_empty [of segs] by (auto simp: plainSegment_def)
  ultimately have trailing: "last p \<noteq> CHR ''/''"
    using assms(2) lastseg by (simp add: p_def last_joinSep plainSegment_def)
  have split: "splitSep p = splitSep root @ segs"
    using assms(2,3) by (simp add: p_def splitSep_append splitSep_joinSep plain_no_slash)
  have norm: "normalizeSegments (\<not> isAbsolute root) [] (splitSep p)
              = normalizeSegments (\<not> isAbsolute root) [] (splitSep root) @ segs"
    unfolding split using assms(3) by (simp add: normalizeSegments_plain_end)
  have "joinSep (normalizeSegments (\<not> isAbsolute root) [] (splitSep root) @ segs) \<noteq> []"
  proof
    assume "joinSep (normalizeSegments (\<not> isAbsolute root) [] (splitSep root) @ segs) = []"
    then have "segs = [[]]"
      using assms(2) joinSep_empty by (fastforce simp: append_eq_Cons_conv)
    with assms(3) show False by (simp add: plainSegment_def)
  qed
  moreover have "p \<noteq> []" by (simp add: p_def)
  ultimately have "path_normalize p
      = (if isAbsolute root then ''/'' else [])
        @ joinSep (normalizeSegments (\<not> isAbsolute root) [] (splitSep root) @ segs)"
    using trailing by (simp add: path_normalize_def Let_def abs norm)
  then show ?thesis
    by (simp add: join)
qed

lemma calculateCachePath_segments:
  assumes "root \<noteq> []" and "h = computeKey e version t c f"
  shows "calculateCachePath e root t c f
         = (if isAbsolute root then ''/'' else [])
           @ joinSep (normalizeSegments (\<not> isAbsolute root) [] (splitSep root)
                      @ [[h ! 0, h ! 1],
                         stripNonWord (path_basename f (path_extname f)) @ ''_'' @ h])"
  using path_join_plain [OF assms(1), of "[[h ! 0, h ! 1],
      stripNonWord (path_basename f (path_extname f)) @ ''_'' @ h]"]
    shard_plain [OF assms(2)] fileName_plain [OF assms(2)] assms(2)
  by (simp add: calculateCachePath_def Let_def)

lemma cachePath_example:
  "calculateCachePath Map.empty ''/cache'' None ''src'' ''/p/my_file.ts''
   = ''/cache/'' @ [computeKey Map.empty version None ''src'' ''/p/my_file.ts'' ! 0,
                    computeKey Map.empty version None ''src'' ''/p/my_file.ts'' ! 1]
     @ ''/my_file_'' @ computeKey Map.empty version None ''src'' ''/p/my_file.ts''"
  by (simp add: calculateCachePath_segments [OF _ refl] isAbsolute_def stripNonWord_def
      path_basename_def path_extname_def lastSegment_def isWordChar_def Let_def
      suffix_to_prefix)

lemma alnum_fileName_plain:
  assumes "h = computeKey e v t c f"
  shows "plainSegment (filter isAlphaNumeric stem @ ''_'' @ h)"
proof -
  define x where "x = filter isAlphaNumeric stem @ ''_'' @ h"
  have "\<And>y. isAlphaNumeric y \<Longrightarrow> y \<noteq> CHR ''/''"
    by (auto simp: isAlphaNumeric_def Let_def)
  then have slash: "CHR ''/'' \<notin> set x"
    using key_chars(2) [OF assms] by (auto simp: x_def)
  have u: "CHR ''_'' \<in> set x" by (simp add: x_def)
  have "x \<noteq> []" "x \<noteq> ''.''" "x \<noteq> ''..''"
    using u by auto
  with slash show ?thesis
    by (simp add: plainSegment_def x_def)
qed

lemma key_char_plain:
  assumes "h = computeKey e v t c f" and "i < 40"
  shows "plainSegment [h ! i]"
proof -
  have "h ! i \<in> set h"
    using key_chars(1) [OF assms(1)] assms(2) by simp
  then show ?thesis
    using key_chars(2,3) [OF assms(1)] by (auto simp: plainSegment_def)
qed

lemma specPath_example:
  "specArtifactPath ''/cache'' ''/p/my_file.ts'' (computeKey Map.empty version None ''src'' ''/p/my_file.ts'')
   = ''/cache/'' @ [computeKey Map.empty version None ''src'' ''/p/my_file.ts'' ! 0]
     @ ''/'' @ [computeKey Map.empty version None ''src'' ''/p/my_file.ts'' ! 1]
     @ ''/myfile_'' @ computeKey Map.empty version None ''src'' ''/p/my_file.ts''"
proof -
  define h where "h = computeKey Map.empty version None ''src'' ''/p/my_file.ts''"
  have stem: "filter isAlphaNumeric (path_basename ''/p/my_file.ts'' (path_extname ''/p/my_file.ts'')) = ''myfile''"
    by (simp add: path_basename_def path_extname_def lastSegment_def isAlphaNumeric_def Let_def
        suffix_to_prefix)
  have "list_all plainSegment [[h ! 0], [h ! 1], ''myfile'' @ ''_'' @ h]"
    using key_char_plain [OF h_def, of 0] key_char_plain [OF h_def, of 1]
      alnum_fileName_plain [OF h_def, where stem = "''my_file''"]
    by (simp add: isAlphaNumeric_def Let_def)
  then show ?thesis
    using path_join_plain [of "''/cache''" "[[h ! 0], [h ! 1], ''myfile'' @ ''_'' @ h]"]
    by (simp add: specArtifactPath_def stem isAbsolute_def h_def [symmetric])
qed

text \<open>
  Claim C8 as stated fails: for \<^verbatim>\<open>/p/my_file.ts\<close> under the cache root \<^verbatim>\<open>/cache\<close> the
  path is \<^verbatim>\<open>/cache/<k0><k1>/my_file_<key>\<close>, one directory named by the two characters
  and the underscore of the stem kept, not \<^verbatim>\<open>/cache/<k0>/<k1>/myfile_<key>\<close>.
\<close>

theorem shard_is_one_directory_and_underscore_kept:
  "calculateCachePath Map.empty ''/cache'' None ''src'' ''/p/my_file.ts''
     = ''/cache/'' @ [computeKey Map.empty version None ''src'' ''/p/my_file.ts'' ! 0,
                      computeKey Map.empty version None ''src'' ''/p/my_file.ts'' ! 1]
       @ ''/my_file_'' @ computeKey Map.empty version None ''src'' ''/p/my_file.ts''
   \<and> calculateCachePath Map.empty ''/cache'' None ''src'' ''/p/my_file.ts''
     \<noteq> specArtifactPath ''/cache'' ''/p/my_file.ts''
         (computeKey Map.empty version None ''src'' ''/p/my_file.ts'')"
  using key_char_plain [OF refl, of 1 Map.empty version None "''src''" "''/p/my_file.ts''"]
  by (simp add: cachePath_example specPath_example plainSegment_def)


text \<open>
  Claim C8, as amended. Under a cache root that is not empty, the artifact path is the
  normalised root, then one directory whose name is the first two characters of the
  key, then the file name: the stem of the source file with every character outside
  \<^verbatim>\<open>[A-Za-z0-9_]\<close> removed, an underscore and the key. The key has 40 characters, and
  neither the directory name nor the file name is cut or merged by the join. The hook
  appends \<^verbatim>\<open>.js\<close> and \<^verbatim>\<open>.map\<close> to this path for the two files.
\<close>

theorem artifact_path_layout:
  assumes "root \<noteq> []" and "h = computeKey e version t c f"
  shows "calculateCachePath e root t c f
           = (if isAbsolute root then ''/'' else [])
             @ joinSep (normalizeSegments (\<not> isAbsolute root) [] (splitSep root)
                        @ [[h ! 0, h ! 1],
                           stripNonWord (path_basename f (path_extname f)) @ ''_'' @ h])
         \<and> length h = 40
         \<and> plainSegment [h ! 0, h ! 1]
         \<and> plainSegment (stripNonWord (path_basename f (path_extname f)) @ ''_'' @ h)"
  using calculateCachePath_segments [OF assms] key_chars(1) [OF assms(2)]
    shard_plain [OF assms(2)] fileName_plain [OF assms(2)]
  by simp

theorem artifact_path_layout_witness:
  "''/cache'' \<noteq> []
   \<and> calculateCachePath Map.empty ''/cache'' None ''src'' ''/p/a-b_c.spec.ts''
     = ''/cache/'' @ [computeKey Map.empty version None ''src'' ''/p/a-b_c.spec.ts'' ! 0,
                      computeKey Map.empty version None ''src'' ''/p/a-b_c.spec.ts'' ! 1]
       @ ''/ab_cspec_'' @ computeKey Map.empty version None ''src'' ''/p/a-b_c.spec.ts''"
  using artifact_path_layout [of "''/cache''" _ Map.empty None "''src''" "''/p/a-b_c.spec.ts''", OF _ refl]
  by (simp add: isAbsolute_def stripNonWord_def path_basename_def path_extname_def
      lastSegment_def isWordChar_def Let_def suffix_to_prefix)

subsection \<open>The alias resolver\<close>

lemma replaceAll_sep: "replaceAll (CHR ''/'') path_sep r = r"
  by (induction r) (simp_all add: replaceAll_def path_sep_def)

lemma replaceFirst_at: "c \<notin> set xs \<Longrightarrow> replaceFirst c t (xs @ c # ys) = xs @ t @ ys"
  by (induction xs) auto

lemma endsWith_same: "endsWith (p @ s) s"
  by (simp add: endsWith_def suffix_def)

lemma endsWith_star: "endsWith (p @ ''/*'') ''*''"
proof -
  have "p @ ''/*'' = (p @ ''/'') @ ''*''" by simp
  then show ?thesis
    unfolding endsWith_def by (rule suffixI)
qed

lemma alias_wildcard:
  "aliasFunction pcwd base (p @ ''/*'') (Some (tgt @ ''*'')) ((p @ ''/'' @ captured) # rest)
     = Inr (path_resolve pcwd [base, tgt @ captured])"
  using endsWith_same [of p "''/*''"]
  by (simp add: aliasFunction_def Let_def firstValue_def replaceAll_sep)

lemma alias_fixed:
  "\<not> endsWith key ''/*'' \<Longrightarrow>
   aliasFunction pcwd base key (Some target) args = Inr (path_resolve pcwd [base, target])"
  by (simp add: aliasFunction_def Let_def replaceAll_sep)

lemma spec_wildcard:
  "CHR ''*'' \<notin> set tgt \<Longrightarrow>
   specAliasResolve pcwd base (p @ ''/*'') (tgt @ ''*'') (p @ ''/'' @ captured)
     = path_resolve pcwd [base, tgt @ captured]"
  using endsWith_star [of p]
  by (simp add: specAliasResolve_def replaceFirst_at)

lemma resolve_under_base:
  assumes "list_all plainSegment segs"
  shows "path_resolve pcwd [''/'' @ joinSep segs, ''./src/lib/foo'']
         = ''/'' @ joinSep (segs @ [''src'', ''lib'', ''foo''])"
proof -
  define r where "r = CHR ''/'' # joinSep segs @ CHR ''/'' # ''./src/lib/foo/''"
  have collect: "resolveCollect (rev [''/'' @ joinSep segs, ''./src/lib/foo''] @ [pcwd]) [] = r"
    by (simp add: isAbsolute_def r_def)
  have abs: "isAbsolute r"
    by (simp add: isAbsolute_def r_def)
  have split: "splitSep r = [] # splitSep (joinSep segs) @ [''.'', ''src'', ''lib'', ''foo'', []]"
    unfolding r_def by (simp add: splitSep_append)
  have "normalizeSegments False [] (splitSep (joinSep segs) @ [''.'', ''src'', ''lib'', ''foo'', []])
        = segs @ [''src'', ''lib'', ''foo'']"
  proof (cases "segs = []")
    case True
    then show ?thesis by simp
  next
    case False
    then show ?thesis
      using assms by (simp add: splitSep_joinSep plain_no_slash normalizeSegments_plain)
  qed
  then have norm: "normalizeSegments False [] (splitSep r) = segs @ [''src'', ''lib'', ''foo'']"
    by (simp add: split)
  show ?thesis
    unfolding path_resolve_def collect
    by (simp add: abs norm)
qed

text \<open>
  Claim C6, as amended. The resolvers of a validated configuration are
  \<^const>\<open>aliasFunction\<close> at the base directory, one for each pattern. For a pattern that
  ends in \<^verbatim>\<open>/*\<close> and a target that ends in \<^verbatim>\<open>*\<close>, the resolver drops that last
  character of the target, appends what the specifier has after the pattern's prefix,
  and resolves against the base directory; when the target has no other wildcard, this
  is the substitution of the captured text at the wildcard of the target. For any other
  pattern, one ending in \<^verbatim>\<open>*\<close> without a slash before it included, the resolver
  returns the target resolved against the base directory, whatever the specifier.
  With \<^verbatim>\<open>lib/*\<close> mapped to \<^verbatim>\<open>./src/lib/*\<close>, the specifier \<^verbatim>\<open>lib/foo\<close> resolves to
  \<^verbatim>\<open>src/lib/foo\<close> under the base directory.
\<close>

theorem alias_resolver_semantics:
  "(validateTsConfig pcwd cfg = Some d
      \<longrightarrow> aliases d = map (\<lambda>(key, value). (''^'' @ replaceFirst (CHR ''*'') ''.*'' key,
                                      aliasFunction pcwd (absoluteBaseUrl d) key value)) (singlePath d))
   \<and> aliasFunction pcwd base (p @ ''/*'') (Some (tgt @ ''*'')) ((p @ ''/'' @ captured) # rest)
       = Inr (path_resolve pcwd [base, tgt @ captured])
   \<and> (CHR ''*'' \<notin> set tgt
      \<longrightarrow> aliasFunction pcwd base (p @ ''/*'') (Some (tgt @ ''*'')) ((p @ ''/'' @ captured) # rest)
          = Inr (specAliasResolve pcwd base (p @ ''/*'') (tgt @ ''*'') (p @ ''/'' @ captured)))
   \<and> (\<not> endsWith key ''/*''
      \<longrightarrow> aliasFunction pcwd base key (Some target) args = Inr (path_resolve pcwd [base, target]))
   \<and> (list_all plainSegment segs
      \<longrightarrow> aliasFunction pcwd (''/'' @ joinSep segs) ''lib/*'' (Some ''./src/lib/*'') [''lib/foo'']
          = Inr (''/'' @ joinSep (segs @ [''src'', ''lib'', ''foo''])))"
proof (intro conjI impI)
  assume "validateTsConfig pcwd cfg = Some d"
  then show "aliases d = map (\<lambda>(key, value). (''^'' @ replaceFirst (CHR ''*'') ''.*'' key,
                                      aliasFunction pcwd (absoluteBaseUrl d) key value)) (singlePath d)"
    by (auto simp: validateTsConfig_def Let_def split: option.splits if_splits)
next
  show "aliasFunction pcwd base (p @ ''/*'') (Some (tgt @ ''*'')) ((p @ ''/'' @ captured) # rest)
       = Inr (path_resolve pcwd [base, tgt @ captured])"
    by (rule alias_wildcard)
next
  assume star: "CHR ''*'' \<notin> set tgt"
  show "aliasFunction pcwd base (p @ ''/*'') (Some (tgt @ ''*'')) ((p @ ''/'' @ captured) # rest)
          = Inr (specAliasResolve pcwd base (p @ ''/*'') (tgt @ ''*'') (p @ ''/'' @ captured))"
    unfolding alias_wildcard spec_wildcard [OF star] by (rule refl)
next
  assume "\<not> endsWith key ''/*''"
  then show "aliasFunction pcwd base key (Some target) args = Inr (path_resolve pcwd [base, target])"
    by (rule alias_fixed)
next
  assume plain: "list_all plainSegment segs"
  show "aliasFunction pcwd (''/'' @ joinSep segs) ''lib/*'' (Some ''./src/lib/*'') [''lib/foo'']
          = Inr (''/'' @ joinSep (segs @ [''src'', ''lib'', ''foo'']))"
    using alias_wildcard [of pcwd "''/'' @ joinSep segs" "''lib''" "''./src/lib/''" "''foo''" "[]"]
      resolve_under_base [OF plain, of pcwd]
    by simp
qed

theorem alias_resolver_semantics_witness:
  "(\<exists>d. validateTsConfig ''/work'' libConfig = Some d
         \<and> map fst (aliases d) = [''^lib/.*'', ''^util''])
   \<and> aliasFunction ''/work'' ''/proj'' ''lib/*'' (Some ''./src/lib/*'') [''lib/foo'']
       = Inr (specAliasResolve ''/work'' ''/proj'' ''lib/*'' ''./src/lib/*'' ''lib/foo'')
   \<and> aliasFunction ''/work'' ''/proj'' ''util'' (Some ''./src/util'') [''util/x'']
       = Inr (path_resolve ''/work'' [''/proj'', ''./src/util''])
   \<and> aliasFunction ''/work'' ''/proj'' ''lib/*'' (Some ''./src/lib/*'') [''lib/foo'']
       = Inr ''/proj/src/lib/foo''"
proof -
  obtain d where d: "validateTsConfig ''/work'' libConfig = Some d"
    and single: "singlePath d = [(''lib/*'', Some ''./src/lib/*''), (''util'', Some ''./src/util'')]"
    by (simp add: validateTsConfig_def libConfig_def Let_def truthy_def isAmbiguousKey_def
        hasMultipleTargets_def firstValue_def)
  have star: "CHR ''*'' \<notin> set ''./src/lib/''" by simp
  have fixed: "\<not> endsWith ''util'' ''/*''"
    by (simp add: endsWith_def suffix_to_prefix)
  have plain: "list_all plainSegment [''proj'']"
    by (simp add: plainSegment_def)
  show ?thesis
    using d single star fixed plain
      alias_resolver_semantics [of "''/work''" libConfig d "''/proj''" "''lib''" "''./src/lib/''"
        "''foo''" "[]" "''util''" "''./src/util''" "[''util/x'']" "[''proj'']"]
    by auto
qed

text \<open>
  Claim C6 as stated fails: with \<^verbatim>\<open>lib/*\<close> mapped to \<^verbatim>\<open>./src/*/lib\<close>, the specifier
  \<^verbatim>\<open>lib/foo\<close> resolves to \<^verbatim>\<open>/base/src/*/lifoo\<close>; the captured text put at the wildcard
  of the target gives \<^verbatim>\<open>/base/src/foo/lib\<close>.
\<close>

theorem alias_target_with_inner_wildcard:
  "aliasFunction ''/work'' ''/base'' ''lib/*'' (Some ''./src/*/lib'') [''lib/foo'']
     = Inr ''/base/src/*/lifoo''
   \<and> specAliasResolve ''/work'' ''/base'' ''lib/*'' ''./src/*/lib'' ''lib/foo'' = ''/base/src/foo/lib''"
  by (simp add: aliasFunction_def specAliasResolve_def Let_def endsWith_def firstValue_def
      replaceAll_sep path_resolve_def isAbsolute_def suffix_to_prefix)

end
